theory Spec2Isabelle
  imports Complex_Main
begin

section \<open>Linear KdV stepper of notebooks/KdV.ipynb\<close>

text \<open>
  The notebook evolves a NumPy array of floats. It is read in two ways.

  \<^item> The exact reading, for what the stepper computes: the array is a list of reals and
    the arithmetic is exact (the definitions leave the element type open and ask only for
    the operations the source uses). Rounding and overflow are not part of this reading.
    A quotient by zero is \<open>0\<close> in HOL and non-finite in the notebook, so a theorem whose
    truth depends on the value of the quotient assumes \<open>dx \<noteq> 0\<close>.

  \<^item> The float reading, for how the notebook runs: how many steps it takes, which
    parameters it refuses and whether the loop can stop early. There a number is a float
    with its infinities and NaN, every operation rounds, and the Python operations that
    raise are branches of the model.
\<close>

subsection \<open>NumPy operations used by the notebook\<close>

text \<open>
  \<open>np.roll(a, shift)\<close> on a one-dimensional array: the shift is reduced modulo the length
  (Python's \<open>%\<close>, sign of the divisor) and the last \<open>shift\<close> elements are moved to the
  front. An empty array is returned as it is.
\<close>

definition roll :: "'a list \<Rightarrow> int \<Rightarrow> 'a list" where
  "roll a shift =
     (let n = length a in
      if n = 0 then a
      else let offset = nat (shift mod int n)
           in drop (n - offset) a @ take (n - offset) a)"

text \<open>
  Elementwise arithmetic of two arrays, and of a scalar with an array. In the notebook both
  operands of every array operation have the length of the state vector, so no shape
  mismatch can arise there.
\<close>

definition arr_add :: "'a::plus list \<Rightarrow> 'a list \<Rightarrow> 'a list" where
  "arr_add a b = map2 (+) a b"

definition arr_sub :: "'a::minus list \<Rightarrow> 'a list \<Rightarrow> 'a list" where
  "arr_sub a b = map2 (-) a b"

definition scal_mul :: "'a::times \<Rightarrow> 'a list \<Rightarrow> 'a list" where
  "scal_mul c a = map (\<lambda>x. c * x) a"

definition arr_div :: "'a::inverse list \<Rightarrow> 'a \<Rightarrow> 'a list" where
  "arr_div a c = map (\<lambda>x. x / c) a"

subsection \<open>The stepper\<close>

text \<open>
  \<open>def third_d(u, dx):
       return (np.roll(u, -2) - 2*np.roll(u, -1) + 2*np.roll(u, 1) - np.roll(u, 2)) / (2*dx**3)\<close>
\<close>

definition third_d :: "'a::{numeral,minus,times,inverse,power} list \<Rightarrow> 'a \<Rightarrow> 'a list" where
  "third_d u dx =
     arr_div
       (arr_sub
          (arr_add
             (arr_sub (roll u (- 2)) (scal_mul 2 (roll u (- 1))))
             (scal_mul 2 (roll u 1)))
          (roll u 2))
       (2 * dx ^ 3)"

text \<open>The loop body \<open>u0 = u0 - dt * third_d(u0, dx)\<close>: a new array, bound to \<open>u0\<close>.\<close>

definition step :: "'a::{numeral,minus,times,inverse,power} list \<Rightarrow> 'a \<Rightarrow> 'a \<Rightarrow> 'a list" where
  "step u0 dt dx = arr_sub u0 (scal_mul dt (third_d u0 dx))"

text \<open>
  \<open>for n in range(Nt): u0 = u0 - dt * third_d(u0, dx)\<close>, on the number of iterations
  that \<open>range(Nt)\<close> yields.
\<close>

fun time_loop :: "nat \<Rightarrow> 'a::{numeral,minus,times,inverse,power} list \<Rightarrow> 'a \<Rightarrow> 'a \<Rightarrow> 'a list" where
  "time_loop 0 u0 dt dx = u0"
| "time_loop (Suc n) u0 dt dx = time_loop n (step u0 dt dx) dt dx"

subsection \<open>The grid\<close>

text \<open>
  The grid lines of the parameter cell, \<open>dx = L/Nx\<close> and
  \<open>x = np.linspace(0, L, Nx, endpoint=False)\<close>, in the exact reading.
\<close>

datatype py_error = ZeroDivisionError | ValueError | OverflowError

definition bind_err :: "py_error + 'a \<Rightarrow> ('a \<Rightarrow> py_error + 'b) \<Rightarrow> py_error + 'b" where
  "bind_err r f = (case r of Inl e \<Rightarrow> Inl e | Inr v \<Rightarrow> f v)"

text \<open>Python's \<open>/\<close> on numbers raises on a zero divisor.\<close>

definition py_truediv :: "real \<Rightarrow> real \<Rightarrow> py_error + real" where
  "py_truediv a b = (if b = 0 then Inl ZeroDivisionError else Inr (a / b))"

text \<open>
  \<open>np.linspace(start, stop, num, endpoint=False)\<close>: a negative \<open>num\<close> is refused;
  otherwise the samples are \<open>arange(0, num) * step + start\<close> with
  \<open>step = (stop - start) / num\<close>.
\<close>

definition linspace_open :: "real \<Rightarrow> real \<Rightarrow> int \<Rightarrow> py_error + real list" where
  "linspace_open start stop num =
     (if num < 0 then Inl ValueError
      else Inr (map (\<lambda>i. real i * ((stop - start) / real_of_int num) + start) [0..<nat num]))"

definition make_grid :: "real \<Rightarrow> int \<Rightarrow> py_error + real \<times> real list" where
  "make_grid L Nx =
     bind_err (py_truediv L (real_of_int Nx)) (\<lambda>dx'.
     bind_err (linspace_open 0 L Nx) (\<lambda>x'.
     Inr (dx', x')))"

subsection \<open>Floats\<close>

text \<open>
  A float is a real number, an infinity or NaN. On the non-finite values the arithmetic
  follows IEEE 754: NaN is absorbing, \<open>inf - inf\<close>, \<open>0 * inf\<close>, \<open>0 / 0\<close> and
  \<open>inf / inf\<close> are NaN, a non-zero number over zero is an infinity. On finite operands
  the result is the exact result rounded to a float, or an infinity when it is out of
  range. The rounding is a parameter, and so is the C library's \<open>pow(v, 3.0)\<close>, which
  Python's \<open>**\<close> calls: the theorems hold whatever these two functions are. The sign of
  zero is left out (a quotient by zero has the sign of the dividend).
\<close>

datatype fl = Fin real | PInf | NInf | NaN

record fprims =
  rnd :: "real \<Rightarrow> fl"
  pow3 :: "real \<Rightarrow> fl"

fun is_finite :: "fl \<Rightarrow> bool" where
  "is_finite (Fin _) = True"
| "is_finite _ = False"

definition all_finite :: "fl list \<Rightarrow> bool" where
  "all_finite u = list_all is_finite u"

fun fl_neg :: "fl \<Rightarrow> fl" where
  "fl_neg (Fin a) = Fin (- a)"
| "fl_neg PInf = NInf"
| "fl_neg NInf = PInf"
| "fl_neg NaN = NaN"

text \<open>An infinity of the sign of \<open>s\<close>, NaN when \<open>s = 0\<close>.\<close>

definition signed_inf :: "real \<Rightarrow> fl" where
  "signed_inf s = (if s = 0 then NaN else if 0 < s then PInf else NInf)"

fun f_add :: "fprims \<Rightarrow> fl \<Rightarrow> fl \<Rightarrow> fl" where
  "f_add fp NaN _ = NaN"
| "f_add fp _ NaN = NaN"
| "f_add fp PInf NInf = NaN"
| "f_add fp NInf PInf = NaN"
| "f_add fp PInf _ = PInf"
| "f_add fp _ PInf = PInf"
| "f_add fp NInf _ = NInf"
| "f_add fp _ NInf = NInf"
| "f_add fp (Fin a) (Fin b) = rnd fp (a + b)"

definition f_sub :: "fprims \<Rightarrow> fl \<Rightarrow> fl \<Rightarrow> fl" where
  "f_sub fp a b = f_add fp a (fl_neg b)"

fun f_mul :: "fprims \<Rightarrow> fl \<Rightarrow> fl \<Rightarrow> fl" where
  "f_mul fp NaN _ = NaN"
| "f_mul fp _ NaN = NaN"
| "f_mul fp (Fin a) (Fin b) = rnd fp (a * b)"
| "f_mul fp (Fin a) PInf = signed_inf a"
| "f_mul fp (Fin a) NInf = signed_inf (- a)"
| "f_mul fp PInf (Fin b) = signed_inf b"
| "f_mul fp NInf (Fin b) = signed_inf (- b)"
| "f_mul fp PInf PInf = PInf"
| "f_mul fp NInf NInf = PInf"
| "f_mul fp PInf NInf = NInf"
| "f_mul fp NInf PInf = NInf"

fun f_div :: "fprims \<Rightarrow> fl \<Rightarrow> fl \<Rightarrow> fl" where
  "f_div fp NaN _ = NaN"
| "f_div fp _ NaN = NaN"
| "f_div fp (Fin a) (Fin b) = (if b = 0 then signed_inf a else rnd fp (a / b))"
| "f_div fp (Fin a) _ = Fin 0"
| "f_div fp PInf (Fin b) = (if 0 \<le> b then PInf else NInf)"
| "f_div fp NInf (Fin b) = (if 0 \<le> b then NInf else PInf)"
| "f_div fp _ _ = NaN"

text \<open>
  NumPy's elementwise operations on float arrays. With NumPy's default error state they
  warn on an overflow or an invalid value and do not raise.
\<close>

definition arr_add_fl :: "fprims \<Rightarrow> fl list \<Rightarrow> fl list \<Rightarrow> fl list" where
  "arr_add_fl fp a b = map2 (f_add fp) a b"

definition arr_sub_fl :: "fprims \<Rightarrow> fl list \<Rightarrow> fl list \<Rightarrow> fl list" where
  "arr_sub_fl fp a b = map2 (f_sub fp) a b"

definition scal_mul_fl :: "fprims \<Rightarrow> fl \<Rightarrow> fl list \<Rightarrow> fl list" where
  "scal_mul_fl fp c a = map (f_mul fp c) a"

definition arr_div_fl :: "fprims \<Rightarrow> fl list \<Rightarrow> fl \<Rightarrow> fl list" where
  "arr_div_fl fp a c = map (\<lambda>v. f_div fp v c) a"

subsection \<open>Python's operations on numbers\<close>

text \<open>
  The conversion of an \<open>int\<close> operand to a float: too large an integer raises
  \<open>OverflowError\<close>.
\<close>

definition int_to_float :: "fprims \<Rightarrow> int \<Rightarrow> py_error + fl" where
  "int_to_float fp n =
     (case rnd fp (real_of_int n) of Fin v \<Rightarrow> Inr (Fin v) | _ \<Rightarrow> Inl OverflowError)"

text \<open>
  \<open>a / b\<close> on floats raises \<open>ZeroDivisionError\<close> when \<open>b\<close> is zero, whatever
  \<open>a\<close> is, and otherwise divides as IEEE does, without raising.
\<close>

definition py_truediv_fl :: "fprims \<Rightarrow> fl \<Rightarrow> fl \<Rightarrow> py_error + fl" where
  "py_truediv_fl fp a b = (if b = Fin 0 then Inl ZeroDivisionError else Inr (f_div fp a b))"

text \<open>
  \<open>int(q)\<close> truncates towards zero; it raises \<open>OverflowError\<close> on an infinity and
  \<open>ValueError\<close> on NaN.
\<close>

definition py_int :: "fl \<Rightarrow> py_error + int" where
  "py_int q =
     (case q of
        Fin v \<Rightarrow> Inr (if 0 \<le> v then \<lfloor>v\<rfloor> else \<lceil>v\<rceil>)
      | NaN \<Rightarrow> Inl ValueError
      | _ \<Rightarrow> Inl OverflowError)"

text \<open>
  \<open>dx**3\<close> on a Python float: NaN and the infinities are returned as they are (the
  exponent is odd); on a finite base the result of \<open>pow\<close> is returned, and a result
  out of range raises \<open>OverflowError\<close>.
\<close>

definition py_cube :: "fprims \<Rightarrow> fl \<Rightarrow> py_error + fl" where
  "py_cube fp b =
     (case b of
        Fin v \<Rightarrow>
          (case pow3 fp v of
             PInf \<Rightarrow> Inl OverflowError
           | NInf \<Rightarrow> Inl OverflowError
           | r \<Rightarrow> Inr r)
      | _ \<Rightarrow> Inr b)"

subsection \<open>The notebook's run on floats\<close>

text \<open>
  \<open>np.linspace(start, stop, num, endpoint=False)\<close> as NumPy computes it: a negative
  \<open>num\<close> raises \<open>ValueError\<close>; otherwise \<open>y = arange(0, num)\<close> is multiplied by
  \<open>step = delta / num\<close>, or divided by \<open>num\<close> and multiplied by \<open>delta\<close> when
  the step is zero, and \<open>start\<close> is added. A grid too large for the machine's memory is
  outside the model.
\<close>

definition linspace_fl :: "fprims \<Rightarrow> fl \<Rightarrow> fl \<Rightarrow> int \<Rightarrow> py_error + fl list" where
  "linspace_fl fp start stop num =
     (if num < 0 then Inl ValueError
      else
        let delta = f_sub fp stop start;
            d = Fin (real_of_int num);
            y = map (\<lambda>i. Fin (real i)) [0..<nat num];
            y' = (if 0 < num then
                    (let step = f_div fp delta d in
                     if step = Fin 0 then map (\<lambda>v. f_mul fp (f_div fp v d) delta) y
                     else map (\<lambda>v. f_mul fp v step) y)
                  else map (\<lambda>v. f_mul fp v delta) y)
        in Inr (map (\<lambda>v. f_add fp v start) y'))"

text \<open>The values the parameter cell binds to \<open>dx\<close>, \<open>x\<close> and \<open>Nt\<close>.\<close>

record params =
  dx_of :: fl
  x_of :: "fl list"
  Nt_of :: int

text \<open>
  The parameter cell, as a function of the four numbers it fixes (\<open>L = 100.0\<close>,
  \<open>Nx = 256\<close>, \<open>T = 10.0\<close>, \<open>dt = 0.001\<close>; \<open>L\<close>, \<open>T\<close> and \<open>dt\<close> are
  floats, \<open>Nx\<close> is an \<open>int\<close>): \<open>dx = L/Nx\<close>,
  \<open>x = np.linspace(0, L, Nx, endpoint=False)\<close>, then \<open>Nt = int(T/dt)\<close>, in this
  order. The cell holds no check of its own; what can fail is what Python and NumPy raise.
  Its last line, \<open>u0 = np.cos(2*np.pi * x/L)\<close>, is an array expression that cannot
  raise; the run below takes the array it yields as \<open>u0\<close>.
\<close>

definition step_count :: "fprims \<Rightarrow> fl \<Rightarrow> fl \<Rightarrow> py_error + int" where
  "step_count fp T dt = bind_err (py_truediv_fl fp T dt) py_int"

definition make_params :: "fprims \<Rightarrow> fl \<Rightarrow> int \<Rightarrow> fl \<Rightarrow> fl \<Rightarrow> py_error + params" where
  "make_params fp L Nx T dt =
     bind_err (int_to_float fp Nx) (\<lambda>Nf.
     bind_err (py_truediv_fl fp L Nf) (\<lambda>dx'.
     bind_err (linspace_fl fp (Fin 0) L Nx) (\<lambda>x'.
     bind_err (step_count fp T dt) (\<lambda>n.
     Inr \<lparr> dx_of = dx', x_of = x', Nt_of = n \<rparr>))))"

text \<open>
  \<open>third_d\<close> on floats: the array expression as above, over \<open>2*dx**3\<close>, where
  \<open>dx\<close> is a Python float and \<open>dx**3\<close> can raise.
\<close>

definition third_d_fl :: "fprims \<Rightarrow> fl list \<Rightarrow> fl \<Rightarrow> py_error + fl list" where
  "third_d_fl fp u dx =
     bind_err (py_cube fp dx) (\<lambda>c.
     Inr (arr_div_fl fp
            (arr_sub_fl fp
               (arr_add_fl fp
                  (arr_sub_fl fp (roll u (- 2)) (scal_mul_fl fp (Fin 2) (roll u (- 1))))
                  (scal_mul_fl fp (Fin 2) (roll u 1)))
               (roll u 2))
            (f_mul fp (Fin 2) c)))"

text \<open>The loop body \<open>u0 = u0 - dt * third_d(u0, dx)\<close>.\<close>

definition step_fl :: "fprims \<Rightarrow> fl list \<Rightarrow> fl \<Rightarrow> fl \<Rightarrow> py_error + fl list" where
  "step_fl fp u0 dt dx =
     bind_err (third_d_fl fp u0 dx) (\<lambda>d.
     Inr (arr_sub_fl fp u0 (scal_mul_fl fp dt d)))"

text \<open>The loop \<open>for n in range(Nt)\<close>: an exception in the body ends it.\<close>

fun time_loop_fl :: "fprims \<Rightarrow> nat \<Rightarrow> fl list \<Rightarrow> fl \<Rightarrow> fl \<Rightarrow> py_error + fl list" where
  "time_loop_fl fp 0 u0 dt dx = Inr u0"
| "time_loop_fl fp (Suc n) u0 dt dx =
     bind_err (step_fl fp u0 dt dx) (\<lambda>u1. time_loop_fl fp n u1 dt dx)"


text \<open>
  Primitives for concrete runs: they do not round, and they give an infinity from
  \<open>2^1024\<close> on, beyond the largest float. On runs whose operands and exact results are
  floats, as the ones evaluated below, they are the float operations.
\<close>

definition to_range :: "real \<Rightarrow> fl" where
  "to_range v = (if 2 ^ 1024 \<le> \<bar>v\<bar> then signed_inf v else Fin v)"

definition range_prims :: fprims where
  "range_prims = \<lparr> rnd = to_range, pow3 = (\<lambda>v. to_range (v ^ 3)) \<rparr>"

subsection \<open>The stencil as the specification writes it\<close>

text \<open>The periodic index: \<open>j\<close> taken modulo the number of grid points.\<close>

definition pidx :: "nat \<Rightarrow> int \<Rightarrow> nat" where
  "pidx n j = nat (j mod int n)"

text \<open>
  The specification's formula
  \<open>D3[u]_i = (u_{i-2} - 2 u_{i-1} + 2 u_{i+1} - u_{i+2}) / (2 dx^3)\<close>,
  indices modulo \<open>N\<close>. It follows the specification's words, not the source, and is what
  \<open>third_d\<close> is compared with.
\<close>

definition spec_D3 :: "real list \<Rightarrow> real \<Rightarrow> nat \<Rightarrow> real" where
  "spec_D3 u dx i =
     (let N = length u in
      (u ! pidx N (int i - 2) - 2 * u ! pidx N (int i - 1)
         + 2 * u ! pidx N (int i + 1) - u ! pidx N (int i + 2)) / (2 * dx ^ 3))"

section \<open>Properties\<close>

subsection \<open>Rolling\<close>

lemma length_roll [simp]: "length (roll a k) = length a"
  by (auto simp: roll_def Let_def)

lemma nth_roll:
  assumes "i < length a"
  shows "roll a k ! i = a ! nat ((int i - k) mod int (length a))"
proof -
  let ?n = "length a"
  from assms have n: "0 < ?n" by auto
  define s where "s = nat (k mod int ?n)"
  have s_lt: "s < ?n" using n by (simp add: s_def nat_less_iff)
  have s_int: "int s = k mod int ?n" using n by (simp add: s_def)
  have r: "roll a k = drop (?n - s) a @ take (?n - s) a"
    using n by (simp add: roll_def Let_def s_def)
  show ?thesis
  proof (cases "i < s")
    case True
    then have "roll a k ! i = a ! (?n - s + i)"
      using s_lt by (simp add: r nth_append)
    moreover have "(int i - k) mod int ?n = int (?n - s + i)"
    proof -
      have "(int i - k) mod int ?n = (int i - k mod int ?n) mod int ?n"
        by (simp add: mod_diff_right_eq)
      also have "\<dots> = (int i - int s) mod int ?n" by (simp add: s_int)
      also have "\<dots> = (int i - int s + int ?n) mod int ?n" by simp
      also have "\<dots> = int i - int s + int ?n"
        using True s_lt assms by (intro mod_pos_pos_trivial) auto
      finally show ?thesis using s_lt by (simp add: of_nat_diff)
    qed
    ultimately show ?thesis by (simp only: nat_int)
  next
    case False
    then have "roll a k ! i = a ! (i - s)"
      using s_lt assms by (simp add: r nth_append)
    moreover have "(int i - k) mod int ?n = int (i - s)"
    proof -
      have "(int i - k) mod int ?n = (int i - k mod int ?n) mod int ?n"
        by (simp add: mod_diff_right_eq)
      also have "\<dots> = (int i - int s) mod int ?n" by (simp add: s_int)
      also have "\<dots> = int i - int s"
        using False assms by (intro mod_pos_pos_trivial) auto
      finally show ?thesis using False by (simp add: of_nat_diff)
    qed
    ultimately show ?thesis by (simp only: nat_int)
  qed
qed

lemma length_third_d [simp]: "length (third_d u dx) = length u"
  by (simp add: third_d_def arr_div_def arr_sub_def arr_add_def scal_mul_def)

lemma length_step [simp]: "length (step u dt dx) = length u"
  by (simp add: step_def arr_sub_def scal_mul_def)

lemma nth_third_d:
  assumes "i < length u"
  shows "third_d u dx ! i =
           (u ! pidx (length u) (int i + 2) - 2 * u ! pidx (length u) (int i + 1)
              + 2 * u ! pidx (length u) (int i - 1) - u ! pidx (length u) (int i - 2))
           / (2 * dx ^ 3)"
  using assms
  by (simp add: third_d_def arr_div_def arr_sub_def arr_add_def scal_mul_def nth_roll pidx_def)

lemma nth_step:
  assumes "i < length u"
  shows "step u dt dx ! i = u ! i - dt * (third_d u dx ! i)"
  using assms by (simp add: step_def arr_sub_def scal_mul_def)

subsection \<open>Periodic indices and the loop\<close>

lemma time_loop_funpow:
  "time_loop n u dt dx = ((\<lambda>v. step v dt dx) ^^ n) u"
proof (induction n arbitrary: u)
  case 0
  show ?case by simp
next
  case (Suc n)
  show ?case by (simp only: time_loop.simps Suc funpow_Suc_right o_apply)
qed

lemma pidx_less: "0 < n \<Longrightarrow> pidx n j < n"
  by (simp add: pidx_def nat_less_iff)

lemma pidx_shift: "0 < n \<Longrightarrow> pidx n (int (pidx n j) + c) = pidx n (j + c)"
  by (simp add: pidx_def mod_add_left_eq)

lemma nth_roll_pidx:
  assumes "0 < length a"
  shows "roll a k ! pidx (length a) j = a ! pidx (length a) (j - k)"
proof -
  have "roll a k ! pidx (length a) j
          = a ! nat ((int (pidx (length a) j) - k) mod int (length a))"
    using assms by (intro nth_roll pidx_less)
  also have "(int (pidx (length a) j) - k) mod int (length a) = (j - k) mod int (length a)"
    using assms by (simp add: pidx_def mod_diff_left_eq)
  finally show ?thesis by (simp add: pidx_def)
qed

lemma nth_roll': "i < length a \<Longrightarrow> roll a k ! i = a ! pidx (length a) (int i - k)"
  by (simp add: nth_roll pidx_def)

lemma stencil_negate:
  fixes a b c d q :: real
  shows "(a - 2 * b + 2 * c - d) / q = - ((d - 2 * c + 2 * b - a) / q)"
proof -
  have "a - 2 * b + 2 * c - d = - (d - 2 * c + 2 * b - a)" by simp
  then show ?thesis by (simp only: minus_divide_left)
qed

subsection \<open>The derivative stencil\<close>

text \<open>
  C1, as the specification states it: at every index the derivative computed by the
  stepper equals \<open>(u_{i-2} - 2 u_{i-1} + 2 u_{i+1} - u_{i+2}) / (2 dx^3)\<close>. This fails:
  on five grid points with \<open>u = [1, 0, 0, 0, 0]\<close> and \<open>dx = 1\<close>, at \<open>i = 1\<close>,
  \<open>third_d\<close> gives \<open>1\<close> and the specification's formula \<open>- 1\<close>.
\<close>

theorem third_d_spec_counterexample:
  "third_d [1, 0, 0, 0, 0 :: real] 1 ! 1 \<noteq> spec_D3 [1, 0, 0, 0, 0] 1 1"
  by (simp add: third_d_def roll_def arr_div_def arr_sub_def arr_add_def scal_mul_def
      spec_D3_def pidx_def)

text \<open>
  C1, amended: \<open>np.roll(u, -2)\<close> holds \<open>u_{i+2}\<close> at index \<open>i\<close> and
  \<open>np.roll(u, 2)\<close> holds \<open>u_{i-2}\<close>, so for every state vector and every index
  \<open>i\<close> below its length, the derivative array has the length of the state and its entry
  \<open>i\<close> is \<open>(u_{i+2} - 2 u_{i+1} + 2 u_{i-1} - u_{i-2}) / (2 dx^3)\<close>, indices modulo
  the length: the specification's formula with the opposite sign.
\<close>

theorem third_d_stencil:
  fixes u :: "real list"
  assumes "i < length u"
  shows "length (third_d u dx) = length u \<and>
         third_d u dx ! i =
           (u ! pidx (length u) (int i + 2) - 2 * u ! pidx (length u) (int i + 1)
              + 2 * u ! pidx (length u) (int i - 1) - u ! pidx (length u) (int i - 2))
           / (2 * dx ^ 3) \<and>
         third_d u dx ! i = - spec_D3 u dx i"
proof -
  have "third_d u dx ! i = - spec_D3 u dx i"
    unfolding nth_third_d[OF assms] spec_D3_def Let_def by (rule stencil_negate)
  then show ?thesis using nth_third_d[OF assms, of dx] by simp
qed

theorem third_d_stencil_witness:
  "(1::nat) < length [1, 0, 0, 0, 0 :: real] \<and>
   third_d [1, 0, 0, 0, 0 :: real] 1 ! 1 = (0 - 2 * 0 + 2 * 1 - 0) / (2 * 1 ^ 3)"
  using third_d_stencil[of 1 "[1, 0, 0, 0, 0]" 1] by (simp add: pidx_def)

subsection \<open>A single time step\<close>

text \<open>
  C2: one time step returns a new array of the same length whose entry \<open>i\<close> is
  \<open>u_i - dt * D3(u)_i\<close>, the derivative array being \<open>third_d\<close> of the state before
  the step: every value the stencil reads is a value of the pre-step state.
\<close>

theorem step_from_prestep:
  fixes u :: "real list"
  assumes "i < length u"
  shows "length (step u dt dx) = length u \<and>
         step u dt dx ! i = u ! i - dt * (third_d u dx ! i) \<and>
         step u dt dx ! i =
           u ! i - dt *
             ((u ! pidx (length u) (int i + 2) - 2 * u ! pidx (length u) (int i + 1)
                + 2 * u ! pidx (length u) (int i - 1) - u ! pidx (length u) (int i - 2))
              / (2 * dx ^ 3))"
  using assms by (simp add: nth_step nth_third_d)

theorem step_from_prestep_witness:
  "(1::nat) < length [1, 0, 0, 0, 0 :: real] \<and> step [1, 0, 0, 0, 0 :: real] 2 1 ! 1 = - 2"
  using step_from_prestep[of 1 "[1, 0, 0, 0, 0]" 2 1] by (simp add: pidx_def)

subsection \<open>Translation invariance\<close>

text \<open>
  C9: the derivative operator commutes with the cyclic shift of the array by any number of
  places, and a shift by the length of the array is the identity.
\<close>

theorem third_d_roll_commute:
  fixes u :: "real list"
  shows "third_d (roll u k) dx = roll (third_d u dx) k \<and> roll u (int (length u)) = u"
proof
  show "third_d (roll u k) dx = roll (third_d u dx) k"
  proof (rule nth_equalityI)
    show "length (third_d (roll u k) dx) = length (roll (third_d u dx) k)" by simp
  next
    fix i assume "i < length (third_d (roll u k) dx)"
    then have i: "i < length u" by simp
    then have n: "0 < length u" by auto
    have "roll (third_d u dx) k ! i = third_d u dx ! pidx (length u) (int i - k)"
      using i by (simp add: nth_roll')
    also have "\<dots> =
        (u ! pidx (length u) (int i - k + 2) - 2 * u ! pidx (length u) (int i - k + 1)
           + 2 * u ! pidx (length u) (int i - k - 1) - u ! pidx (length u) (int i - k - 2))
        / (2 * dx ^ 3)"
      using n pidx_shift[OF n, of "int i - k"] pidx_shift[OF n, of "int i - k" "- 1"]
        pidx_shift[OF n, of "int i - k" "- 2"]
      by (simp add: nth_third_d pidx_less)
    also have "\<dots> = third_d (roll u k) dx ! i"
      using i n nth_roll_pidx[OF n, of k]
      by (simp add: nth_third_d algebra_simps)
    finally show "third_d (roll u k) dx ! i = roll (third_d u dx) k ! i" by simp
  qed
next
  show "roll u (int (length u)) = u" by (simp add: roll_def Let_def)
qed

theorem third_d_roll_commute_witness:
  "third_d (roll [1, 0, 0, 0, 0 :: real] 2) 1 = roll (third_d [1, 0, 0, 0, 0] 1) 2"
  using third_d_roll_commute[of "[1, 0, 0, 0, 0]" 2 1] by simp

subsection \<open>Linearity\<close>

lemma nth_lincomb:
  fixes u v :: "real list"
  assumes "length u = length v" and "j < length u"
  shows "arr_add (scal_mul a u) (scal_mul b v) ! j = a * u ! j + b * v ! j"
  using assms by (simp add: arr_add_def scal_mul_def)

lemma stencil_linear:
  fixes a b q :: real
  shows "((a * u2 + b * v2) - 2 * (a * u1 + b * v1) + 2 * (a * um1 + b * vm1) - (a * um2 + b * vm2)) / q
         = a * ((u2 - 2 * u1 + 2 * um1 - um2) / q) + b * ((v2 - 2 * v1 + 2 * vm1 - vm2) / q)"
  by (simp add: algebra_simps add_divide_distrib diff_divide_distrib)

text \<open>
  C8: the derivative operator is linear. For state vectors \<open>u\<close>, \<open>v\<close> of the same
  length and scalars \<open>a\<close>, \<open>b\<close>, in exact arithmetic,
  \<open>D3[a u + b v] = a D3[u] + b D3[v]\<close>.
\<close>

theorem third_d_linear:
  fixes u v :: "real list"
  assumes "length u = length v" and "dx \<noteq> 0"
  shows "third_d (arr_add (scal_mul a u) (scal_mul b v)) dx =
           arr_add (scal_mul a (third_d u dx)) (scal_mul b (third_d v dx))"
proof (rule nth_equalityI)
  show "length (third_d (arr_add (scal_mul a u) (scal_mul b v)) dx) =
        length (arr_add (scal_mul a (third_d u dx)) (scal_mul b (third_d v dx)))"
    using assms(1) by (simp add: arr_add_def scal_mul_def)
next
  let ?w = "arr_add (scal_mul a u) (scal_mul b v)"
  fix i assume "i < length (third_d ?w dx)"
  then have i: "i < length u" using assms(1) by (simp add: arr_add_def scal_mul_def)
  then have n: "0 < length u" by auto
  have lw: "length ?w = length u" using assms(1) by (simp add: arr_add_def scal_mul_def)
  have w: "?w ! pidx (length u) j = a * u ! pidx (length u) j + b * v ! pidx (length u) j" for j
    using assms(1) pidx_less[OF n, of j] by (rule nth_lincomb)
  have iv: "i < length v" using i assms(1) by simp
  have "third_d ?w dx ! i =
          (?w ! pidx (length u) (int i + 2) - 2 * ?w ! pidx (length u) (int i + 1)
             + 2 * ?w ! pidx (length u) (int i - 1) - ?w ! pidx (length u) (int i - 2))
          / (2 * dx ^ 3)"
    using nth_third_d[of i ?w dx] i lw by simp
  also have "\<dots> = a * (third_d u dx ! i) + b * (third_d v dx ! i)"
    unfolding w nth_third_d[OF i] nth_third_d[OF iv] assms(1)[symmetric] by (rule stencil_linear)
  also have "\<dots> = arr_add (scal_mul a (third_d u dx)) (scal_mul b (third_d v dx)) ! i"
    using i assms(1) by (simp add: arr_add_def scal_mul_def)
  finally show "third_d ?w dx ! i = arr_add (scal_mul a (third_d u dx)) (scal_mul b (third_d v dx)) ! i" .
qed

theorem third_d_linear_witness:
  "length [1, 0, 0, 0, 0 :: real] = length [0, 1, 0, 2, 0 :: real] \<and> (1::real) \<noteq> 0 \<and>
   third_d (arr_add (scal_mul 3 [1, 0, 0, 0, 0]) (scal_mul 2 [0, 1, 0, 2, 0])) (1::real) =
     arr_add (scal_mul 3 (third_d [1, 0, 0, 0, 0] 1)) (scal_mul 2 (third_d [0, 1, 0, 2, 0] 1))"
  using third_d_linear[of "[1, 0, 0, 0, 0]" "[0, 1, 0, 2, 0]" 1 3 2] by simp

subsection \<open>Constant states\<close>

lemma third_d_replicate:
  fixes c dx :: real
  shows "third_d (replicate N c) dx = replicate N 0"
proof (rule nth_equalityI)
  show "length (third_d (replicate N c) dx) = length (replicate N (0::real))" by simp
next
  fix i assume "i < length (third_d (replicate N c) dx)"
  then have i: "i < N" by simp
  then have "0 < N" by auto
  then show "third_d (replicate N c) dx ! i = replicate N 0 ! i"
    using i by (simp add: nth_third_d pidx_less)
qed

lemma step_replicate:
  fixes c dt dx :: real
  shows "step (replicate N c) dt dx = replicate N c"
  by (simp add: step_def third_d_replicate arr_sub_def scal_mul_def)

text \<open>
  C7: on a constant state vector the derivative array is zero at every index, and the
  loop returns the state unchanged, for any number of steps and any step size.
\<close>

theorem constant_state_fixed:
  fixes c dt dx :: real
  assumes "dx \<noteq> 0"
  shows "third_d (replicate N c) dx = replicate N 0 \<and>
         time_loop n (replicate N c) dt dx = replicate N c"
proof
  show "third_d (replicate N c) dx = replicate N 0" by (rule third_d_replicate)
  show "time_loop n (replicate N c) dt dx = replicate N c"
    by (induction n) (simp_all add: step_replicate)
qed

theorem constant_state_fixed_witness:
  "(2::real) \<noteq> 0 \<and> third_d [7, 7, 7, 7, 7] (2::real) = [0, 0, 0, 0, 0] \<and>
   time_loop 3 [7, 7, 7, 7, 7] (1 / 10) (2::real) = [7, 7, 7, 7, 7]"
  using constant_state_fixed[of 2 5 7 3 "1 / 10"] by (simp add: eval_nat_numeral)

subsection \<open>Conservation of the sum\<close>

lemma sum_list_roll:
  fixes a :: "real list"
  shows "sum_list (roll a k) = sum_list a"
proof (cases "length a = 0")
  case True
  then show ?thesis by (simp add: roll_def)
next
  case False
  define m where "m = length a - nat (k mod int (length a))"
  have "sum_list (roll a k) = sum_list (drop m a) + sum_list (take m a)"
    using False by (simp add: roll_def Let_def m_def)
  also have "\<dots> = sum_list (take m a @ drop m a)"
    by (simp only: sum_list_append add.commute)
  also have "\<dots> = sum_list a" by (simp only: append_take_drop_id)
  finally show ?thesis .
qed

lemma sum_list_arr_sub:
  fixes a b :: "real list"
  shows "length a = length b \<Longrightarrow> sum_list (arr_sub a b) = sum_list a - sum_list b"
  by (induction a b rule: list_induct2) (simp_all add: arr_sub_def)

lemma sum_list_arr_add:
  fixes a b :: "real list"
  shows "length a = length b \<Longrightarrow> sum_list (arr_add a b) = sum_list a + sum_list b"
  by (induction a b rule: list_induct2) (simp_all add: arr_add_def)

lemma sum_list_scal_mul:
  fixes a :: "real list"
  shows "sum_list (scal_mul c a) = c * sum_list a"
  by (induction a) (simp_all add: scal_mul_def algebra_simps)

lemma sum_list_arr_div:
  fixes a :: "real list"
  shows "sum_list (arr_div a c) = sum_list a / c"
  by (induction a) (simp_all add: arr_div_def add_divide_distrib)

lemma length_arr_ops [simp]:
  "length (arr_add a b) = min (length a) (length b)"
  "length (arr_sub a' b') = min (length a') (length b')"
  "length (scal_mul c d) = length d"
  "length (arr_div e f) = length e"
  by (simp_all add: arr_add_def arr_sub_def scal_mul_def arr_div_def)

lemma sum_list_third_d:
  fixes u :: "real list"
  shows "sum_list (third_d u dx) = 0"
  by (simp add: third_d_def sum_list_arr_div sum_list_arr_sub sum_list_arr_add
      sum_list_scal_mul sum_list_roll)

lemma sum_list_step:
  fixes u :: "real list"
  shows "sum_list (step u dt dx) = sum_list u"
  by (simp add: step_def sum_list_arr_sub sum_list_scal_mul sum_list_third_d)

text \<open>
  C10: the entries of the derivative array sum to zero, so a time step, and the loop of
  any number of steps, preserves the sum of the state vector (in exact arithmetic).
\<close>

theorem sum_preserved:
  fixes u :: "real list"
  assumes "dx \<noteq> 0"
  shows "sum_list (third_d u dx) = 0 \<and>
         sum_list (step u dt dx) = sum_list u \<and>
         sum_list (time_loop n u dt dx) = sum_list u"
proof -
  have "sum_list (time_loop n u dt dx) = sum_list u"
    by (induction n arbitrary: u) (simp_all add: sum_list_step)
  then show ?thesis by (simp add: sum_list_third_d sum_list_step)
qed

theorem sum_preserved_witness:
  "(1::real) \<noteq> 0 \<and> sum_list (third_d [1, 0, 0, 0, 0] (1::real)) = 0 \<and>
   sum_list (time_loop 3 [1, 0, 0, 0, 0] 1 (1::real)) = 1"
  using sum_preserved[of 1 "[1, 0, 0, 0, 0]" 1 3] by simp

subsection \<open>Grid construction\<close>

lemma make_grid_pos:
  assumes "0 < Nx"
  shows "make_grid L Nx =
           Inr (L / real_of_int Nx, map (\<lambda>i. real i * (L / real_of_int Nx)) [0..<nat Nx])"
  using assms by (simp add: make_grid_def bind_err_def py_truediv_def linspace_open_def)

text \<open>
  C4: for \<open>L > 0\<close> and a positive point count \<open>Nx\<close>, grid construction
  succeeds with spacing \<open>dx = L/Nx\<close> and the \<open>Nx\<close> coordinates
  \<open>x_i = i dx\<close>, all in \<open>[0, L)\<close>: the right endpoint is not a grid point.
\<close>

theorem make_grid_even_spacing:
  assumes "0 < L" and "0 < Nx"
  shows "\<exists>xs. make_grid L Nx = Inr (L / real_of_int Nx, xs) \<and> 0 < L / real_of_int Nx \<and>
           length xs = nat Nx \<and>
           (\<forall>i. i < nat Nx \<longrightarrow>
              xs ! i = real i * (L / real_of_int Nx) \<and> 0 \<le> xs ! i \<and> xs ! i < L)"
proof -
  define d where "d = L / real_of_int Nx"
  define xs where "xs = map (\<lambda>i. real i * d) [0..<nat Nx]"
  have d: "0 < d" using assms by (simp add: d_def)
  have L: "real_of_int Nx * d = L" using assms(2) by (simp add: d_def)
  have pt: "xs ! i = real i * d \<and> 0 \<le> xs ! i \<and> xs ! i < L" if "i < nat Nx" for i
  proof -
    have v: "xs ! i = real i * d" using that by (simp add: xs_def)
    from that assms(2) have "real i < real_of_int Nx" by linarith
    then have "real i * d < real_of_int Nx * d" using d by (rule mult_strict_right_mono)
    then have "xs ! i < L" by (simp only: v L)
    moreover have "0 \<le> xs ! i" using d by (simp add: v)
    ultimately show ?thesis using v by blast
  qed
  have "make_grid L Nx = Inr (d, xs)"
    unfolding d_def xs_def by (rule make_grid_pos[OF assms(2)])
  moreover have "length xs = nat Nx" by (simp add: xs_def)
  ultimately show ?thesis using d pt unfolding d_def by blast
qed

theorem make_grid_even_spacing_witness:
  "make_grid 100 5 = Inr (20, [0, 20, 40, 60, 80])"
  using make_grid_even_spacing[of 100 5]
  by (simp add: make_grid_def bind_err_def py_truediv_def linspace_open_def upt_rec)

subsection \<open>Concrete float runs\<close>

lemma to_range_small: "\<bar>v\<bar> \<le> 2 ^ 20 \<Longrightarrow> to_range v = Fin v"
proof -
  assume a: "\<bar>v\<bar> \<le> 2 ^ 20"
  have "(2::real) ^ 20 < 2 ^ 1024" by (rule power_strict_increasing) simp_all
  with a show ?thesis by (simp add: to_range_def)
qed

lemma range_prims_sel:
  "rnd range_prims v = to_range v" "pow3 range_prims v = to_range (v ^ 3)"
  by (simp_all add: range_prims_def)

subsection \<open>Parameter construction on floats\<close>


lemma step_count_cases:
  "step_count fp T dt =
     (if dt = Fin 0 then Inl ZeroDivisionError
      else case f_div fp T dt of
             Fin v \<Rightarrow> Inr (if 0 \<le> v then \<lfloor>v\<rfloor> else \<lceil>v\<rceil>)
           | NaN \<Rightarrow> Inl ValueError
           | _ \<Rightarrow> Inl OverflowError)"
  by (simp add: step_count_def py_truediv_fl_def py_int_def bind_err_def)

lemma make_params_cases:
  assumes "rnd fp (real_of_int Nx) = Fin (real_of_int Nx)"
  shows "make_params fp L Nx T dt =
     (if Nx = 0 then Inl ZeroDivisionError
      else if Nx < 0 then Inl ValueError
      else bind_err (step_count fp T dt) (\<lambda>n.
             Inr \<lparr> dx_of = f_div fp L (Fin (real_of_int Nx)),
                    x_of = projr (linspace_fl fp (Fin 0) L Nx), Nt_of = n \<rparr>))"
  using assms
  by (simp add: make_params_def int_to_float_def py_truediv_fl_def bind_err_def linspace_fl_def
      Let_def)

text \<open>
  C5, as the specification states it: construction fails when the point count is below
  five, in particular for \<open>N = 4\<close> and \<open>N = 3\<close>. The parameter cell accepts both
  (here with \<open>L = 96\<close>, \<open>T = 10\<close>, \<open>dt = 0.125\<close>, where every value of the
  cell is a float and nothing is rounded).
\<close>

theorem make_params_accepts_small_grid:
  "\<not> isl (make_params range_prims (Fin 96) 4 (Fin 10) (Fin (1 / 8))) \<and>
   \<not> isl (make_params range_prims (Fin 96) 3 (Fin 10) (Fin (1 / 8)))"
proof -
  have s: "step_count range_prims (Fin 10) (Fin (1 / 8)) = Inr 80"
    by (simp add: step_count_cases range_prims_sel to_range_small)
  show ?thesis
    by (simp add: make_params_cases range_prims_sel to_range_small s bind_err_def)
qed

text \<open>
  C5, amended: the parameter cell validates nothing and has no \<open>InvalidGrid\<close>
  error; it fails only where Python or NumPy raise. For a point count that is a float
  without rounding and a grid that fits in memory (here at most \<open>2^20\<close> points), it
  fails with \<open>ZeroDivisionError\<close> exactly when \<open>Nx = 0\<close>, or \<open>Nx > 0\<close> and
  \<open>dt\<close> is zero; with \<open>ValueError\<close> exactly when \<open>Nx < 0\<close>, or the float
  quotient \<open>T/dt\<close> is NaN; with \<open>OverflowError\<close> exactly when that quotient is
  infinite; and it succeeds in every other case. So any \<open>L\<close>, a negative \<open>T\<close>, a
  negative \<open>dt\<close> and a point count from one to four are accepted.
\<close>

theorem make_params_outcome:
  assumes "Nx \<le> 2 ^ 20" and "rnd fp (real_of_int Nx) = Fin (real_of_int Nx)"
  shows "(make_params fp L Nx T dt = Inl ZeroDivisionError \<longleftrightarrow>
            Nx = 0 \<or> (0 < Nx \<and> dt = Fin 0)) \<and>
         (make_params fp L Nx T dt = Inl ValueError \<longleftrightarrow>
            Nx < 0 \<or> (0 < Nx \<and> dt \<noteq> Fin 0 \<and> f_div fp T dt = NaN)) \<and>
         (make_params fp L Nx T dt = Inl OverflowError \<longleftrightarrow>
            0 < Nx \<and> dt \<noteq> Fin 0 \<and> (f_div fp T dt = PInf \<or> f_div fp T dt = NInf)) \<and>
         (\<not> isl (make_params fp L Nx T dt) \<longleftrightarrow>
            0 < Nx \<and> dt \<noteq> Fin 0 \<and> is_finite (f_div fp T dt))"
  unfolding make_params_cases[OF assms(2)] step_count_cases
  by (cases "f_div fp T dt") (auto simp add: bind_err_def)

theorem make_params_outcome_witness:
  "make_params range_prims (Fin (- 1)) 4 (Fin (- 10)) (Fin (- (1 / 8))) \<noteq> Inl ZeroDivisionError \<and>
   make_params range_prims (Fin (- 1)) 4 (Fin (- 10)) (Fin (- (1 / 8))) \<noteq> Inl ValueError \<and>
   make_params range_prims (Fin (- 1)) 4 (Fin (- 10)) (Fin (- (1 / 8))) \<noteq> Inl OverflowError \<and>
   \<not> isl (make_params range_prims (Fin (- 1)) 4 (Fin (- 10)) (Fin (- (1 / 8)))) \<and>
   make_params range_prims (Fin 100) 4 (Fin (2 ^ 1023)) (Fin (1 / 8)) = Inl OverflowError"
proof -
  have q: "f_div range_prims (Fin (- 10)) (Fin (- (1 / 8))) = Fin 80"
    by (simp add: range_prims_sel to_range_small)
  have "(2::real) ^ 1023 * 8 = 2 ^ 1026" by simp
  moreover have "(2::real) ^ 1024 \<le> 2 ^ 1026" by (rule power_increasing) simp_all
  ultimately have q': "f_div range_prims (Fin (2 ^ 1023)) (Fin (1 / 8)) = PInf"
    by (simp add: range_prims_sel to_range_def signed_inf_def)
  have c: "(4::int) \<le> 2 ^ 20" "rnd range_prims (real_of_int 4) = Fin (real_of_int 4)"
    by (simp_all add: range_prims_sel to_range_small)
  from make_params_outcome[OF c, of "Fin (- 1)" "Fin (- 10)" "Fin (- (1 / 8))"]
       make_params_outcome[OF c, of "Fin 100" "Fin (2 ^ 1023)" "Fin (1 / 8)"] q q'
  show ?thesis by simp
qed

subsection \<open>The loop on floats\<close>

lemma f_sub_nonfinite: "\<not> is_finite a \<Longrightarrow> \<not> is_finite (f_sub fp a b)"
  by (cases a; cases b) (simp_all add: f_sub_def)

lemma py_cube_error: "py_cube fp dx = Inl e \<Longrightarrow> e = OverflowError"
  by (auto simp add: py_cube_def split: fl.splits)

lemma isl_py_cube: "isl (py_cube fp dx) \<longleftrightarrow> py_cube fp dx = Inl OverflowError"
  by (cases "py_cube fp dx") (auto dest: py_cube_error)

lemma step_fl_raises:
  assumes "py_cube fp dx = Inl e"
  shows "step_fl fp u dt dx = Inl e"
  using assms by (simp add: step_fl_def third_d_fl_def bind_err_def)

lemma third_d_fl_returns:
  assumes "py_cube fp dx = Inr c"
  shows "\<exists>d. length d = length u \<and> third_d_fl fp u dx = Inr d"
proof -
  let ?d = "arr_div_fl fp
            (arr_sub_fl fp
               (arr_add_fl fp
                  (arr_sub_fl fp (roll u (- 2)) (scal_mul_fl fp (Fin 2) (roll u (- 1))))
                  (scal_mul_fl fp (Fin 2) (roll u 1)))
               (roll u 2))
            (f_mul fp (Fin 2) c)"
  have "length ?d = length u"
    by (simp add: arr_div_fl_def arr_sub_fl_def arr_add_fl_def scal_mul_fl_def)
  moreover have "third_d_fl fp u dx = Inr ?d"
    by (simp add: third_d_fl_def bind_err_def assms)
  ultimately show ?thesis by blast
qed

lemma step_fl_returns:
  assumes "py_cube fp dx = Inr c"
  shows "\<exists>d. length d = length u \<and> step_fl fp u dt dx = Inr (arr_sub_fl fp u (scal_mul_fl fp dt d))"
proof -
  from third_d_fl_returns[OF assms, of u] obtain d where
    "length d = length u" and "third_d_fl fp u dx = Inr d" by blast
  then show ?thesis by (auto simp add: step_fl_def bind_err_def)
qed

lemma step_fl_not_isl: "\<not> isl (py_cube fp dx) \<Longrightarrow> \<not> isl (step_fl fp u dt dx)"
proof -
  assume "\<not> isl (py_cube fp dx)"
  then obtain c where "py_cube fp dx = Inr c" by (cases "py_cube fp dx") auto
  from step_fl_returns[OF this, of u dt] show ?thesis by auto
qed

lemma step_fl_length:
  assumes "\<not> isl (py_cube fp dx)"
  shows "length (projr (step_fl fp u dt dx)) = length u"
proof -
  from assms obtain c where "py_cube fp dx = Inr c" by (cases "py_cube fp dx") auto
  from step_fl_returns[OF this, of u dt] show ?thesis
    by (auto simp add: arr_sub_fl_def scal_mul_fl_def)
qed

lemma step_fl_keeps_nonfinite:
  assumes "\<not> isl (py_cube fp dx)" and "\<not> all_finite u"
  shows "\<not> all_finite (projr (step_fl fp u dt dx))"
proof -
  from assms(1) obtain c where "py_cube fp dx = Inr c" by (cases "py_cube fp dx") auto
  from step_fl_returns[OF this, of u dt] obtain d where
    d: "length d = length u" and s: "step_fl fp u dt dx = Inr (arr_sub_fl fp u (scal_mul_fl fp dt d))"
    by blast
  from assms(2) obtain i where i: "i < length u" and nf: "\<not> is_finite (u ! i)"
    by (auto simp add: all_finite_def list_all_length)
  have "arr_sub_fl fp u (scal_mul_fl fp dt d) ! i = f_sub fp (u ! i) (f_mul fp dt (d ! i))"
    using i d by (simp add: arr_sub_fl_def scal_mul_fl_def)
  then have "\<not> is_finite (arr_sub_fl fp u (scal_mul_fl fp dt d) ! i)"
    using nf by (simp add: f_sub_nonfinite)
  moreover have "i < length (arr_sub_fl fp u (scal_mul_fl fp dt d))"
    using i d by (simp add: arr_sub_fl_def scal_mul_fl_def)
  ultimately show ?thesis unfolding s by (auto simp add: all_finite_def list_all_length)
qed

lemma time_loop_fl_raises:
  assumes "py_cube fp dx = Inl e"
  shows "time_loop_fl fp n u dt dx = (if n = 0 then Inr u else Inl e)"
  using step_fl_raises[OF assms] by (cases n) (simp_all add: bind_err_def)

lemma time_loop_fl_funpow:
  assumes "\<not> isl (py_cube fp dx)"
  shows "time_loop_fl fp n u dt dx = Inr (((\<lambda>v. projr (step_fl fp v dt dx)) ^^ n) u)"
proof (induction n arbitrary: u)
  case 0
  show ?case by simp
next
  case (Suc n)
  from step_fl_not_isl[OF assms, of u dt] obtain u1 where u1: "step_fl fp u dt dx = Inr u1"
    by (cases "step_fl fp u dt dx") auto
  have "time_loop_fl fp (Suc n) u dt dx = time_loop_fl fp n u1 dt dx"
    by (simp add: u1 bind_err_def)
  also have "\<dots> = Inr (((\<lambda>v. projr (step_fl fp v dt dx)) ^^ n) u1)" by (rule Suc)
  also have "u1 = projr (step_fl fp u dt dx)" by (simp add: u1)
  finally show ?case by (simp only: funpow_Suc_right o_apply)
qed

lemma funpow_step_fl_invariant:
  assumes "\<not> isl (py_cube fp dx)"
  shows "length (((\<lambda>v. projr (step_fl fp v dt dx)) ^^ n) u) = length u \<and>
         (\<not> all_finite u \<longrightarrow> \<not> all_finite (((\<lambda>v. projr (step_fl fp v dt dx)) ^^ n) u))"
  by (induction n) (simp_all add: step_fl_length[OF assms] step_fl_keeps_nonfinite[OF assms])



subsection \<open>Non-finite states\<close>

text \<open>
  C6, as the specification states it: when the state holds a NaN or an infinity after a
  step, the run is aborted with \<open>NonFiniteState\<close>. The loop has no such scan: from
  \<open>[inf, 0, 0, 0, 0]\<close> with \<open>dt = dx = 1\<close> the state after the first step is
  \<open>[inf, -inf, inf, -inf, inf]\<close>, and the loop of three steps still returns a state,
  all NaN.
\<close>

theorem time_loop_fl_continues_on_nonfinite:
  "time_loop_fl range_prims 1 [PInf, Fin 0, Fin 0, Fin 0, Fin 0] (Fin 1) (Fin 1)
     = Inr [PInf, NInf, PInf, NInf, PInf] \<and>
   time_loop_fl range_prims 3 [PInf, Fin 0, Fin 0, Fin 0, Fin 0] (Fin 1) (Fin 1)
     = Inr [NaN, NaN, NaN, NaN, NaN]"
  by (simp add: step_fl_def third_d_fl_def bind_err_def py_cube_def roll_def
      arr_div_fl_def arr_sub_fl_def arr_add_fl_def scal_mul_fl_def f_sub_def
      range_prims_sel to_range_small signed_inf_def eval_nat_numeral)

text \<open>
  C6, amended: the loop scans nothing and has no \<open>NonFiniteState\<close> error; whether
  it stops early does not depend on the state. The only exception it can raise is the
  \<open>OverflowError\<close> of \<open>dx**3\<close>, at the first iteration. When \<open>dx**3\<close> is in
  range, no step raises, all \<open>n\<close> steps are applied whatever the state holds, an
  array of the same length is returned, and a state that holds a NaN or an infinity stays
  non-finite through the remaining steps.
\<close>

theorem time_loop_fl_aborts_only_on_dx:
  "(isl (py_cube fp dx) \<longrightarrow>
      py_cube fp dx = Inl OverflowError \<and>
      time_loop_fl fp n u dt dx = (if n = 0 then Inr u else Inl OverflowError)) \<and>
   (\<not> isl (py_cube fp dx) \<longrightarrow>
      (\<forall>v. \<not> isl (step_fl fp v dt dx)) \<and>
      time_loop_fl fp n u dt dx = Inr (((\<lambda>v. projr (step_fl fp v dt dx)) ^^ n) u) \<and>
      length (projr (time_loop_fl fp n u dt dx)) = length u \<and>
      (\<not> all_finite u \<longrightarrow> \<not> all_finite (projr (time_loop_fl fp n u dt dx))))"
proof (intro conjI impI)
  assume a: "isl (py_cube fp dx)"
  then show c: "py_cube fp dx = Inl OverflowError" by (simp only: isl_py_cube)
  show "time_loop_fl fp n u dt dx = (if n = 0 then Inr u else Inl OverflowError)"
    by (rule time_loop_fl_raises[OF c])
next
  assume a: "\<not> isl (py_cube fp dx)"
  show "\<forall>v. \<not> isl (step_fl fp v dt dx)" using step_fl_not_isl[OF a] by blast
  show "time_loop_fl fp n u dt dx = Inr (((\<lambda>v. projr (step_fl fp v dt dx)) ^^ n) u)"
    by (rule time_loop_fl_funpow[OF a])
  show "length (projr (time_loop_fl fp n u dt dx)) = length u"
    using funpow_step_fl_invariant[OF a, where n = n and u = u and dt = dt] by (simp add: time_loop_fl_funpow[OF a])
next
  assume a: "\<not> isl (py_cube fp dx)" and "\<not> all_finite u"
  then show "\<not> all_finite (projr (time_loop_fl fp n u dt dx))"
    using funpow_step_fl_invariant[OF a, where n = n and u = u and dt = dt] by (simp add: time_loop_fl_funpow[OF a])
qed

theorem time_loop_fl_aborts_only_on_dx_witness:
  "isl (py_cube range_prims (Fin (2 ^ 400))) \<and>
   time_loop_fl range_prims 3 [Fin 1, Fin 0, Fin 0, Fin 0, Fin 0] (Fin 1) (Fin (2 ^ 400))
     = Inl OverflowError \<and>
   \<not> isl (py_cube range_prims (Fin 1)) \<and>
   \<not> all_finite [Fin 1, NaN, Fin 0, Fin 0, Fin 0] \<and>
   \<not> all_finite
       (projr (time_loop_fl range_prims 2 [Fin 1, NaN, Fin 0, Fin 0, Fin 0] (Fin 1) (Fin 1))) \<and>
   length (projr (time_loop_fl range_prims 2 [Fin 1, NaN, Fin 0, Fin 0, Fin 0] (Fin 1) (Fin 1)))
     = 5"
proof -
  have "((2::real) ^ 400) ^ 3 = 2 ^ 1200" by (simp only: power_mult [symmetric]) simp
  moreover have "(2::real) ^ 1024 \<le> 2 ^ 1200" by (rule power_increasing) simp_all
  ultimately have "to_range ((2 ^ 400) ^ 3) = PInf"
    by (simp add: to_range_def signed_inf_def)
  then have o: "isl (py_cube range_prims (Fin (2 ^ 400)))"
    by (simp add: py_cube_def range_prims_sel)
  have f: "\<not> isl (py_cube range_prims (Fin 1))"
    by (simp add: py_cube_def range_prims_sel to_range_small)
  have n: "\<not> all_finite [Fin 1, NaN, Fin 0, Fin 0, Fin 0]" by (simp add: all_finite_def)
  note t1 = time_loop_fl_aborts_only_on_dx[of range_prims "Fin (2 ^ 400)" 3
      "[Fin 1, Fin 0, Fin 0, Fin 0, Fin 0]" "Fin 1"]
  from t1 o
  have 1: "time_loop_fl range_prims 3 [Fin 1, Fin 0, Fin 0, Fin 0, Fin 0] (Fin 1) (Fin (2 ^ 400))
     = Inl OverflowError" by simp
  note t2 = time_loop_fl_aborts_only_on_dx[of range_prims "Fin 1" 2
      "[Fin 1, NaN, Fin 0, Fin 0, Fin 0]" "Fin 1"]
  from t2 f n
  have "\<not> all_finite
       (projr (time_loop_fl range_prims 2 [Fin 1, NaN, Fin 0, Fin 0, Fin 0] (Fin 1) (Fin 1))) \<and>
   length (projr (time_loop_fl range_prims 2 [Fin 1, NaN, Fin 0, Fin 0, Fin 0] (Fin 1) (Fin 1)))
     = length [Fin 1, NaN, Fin 0, Fin 0, Fin 0]" by blast
  then have 2: "\<not> all_finite
       (projr (time_loop_fl range_prims 2 [Fin 1, NaN, Fin 0, Fin 0, Fin 0] (Fin 1) (Fin 1))) \<and>
   length (projr (time_loop_fl range_prims 2 [Fin 1, NaN, Fin 0, Fin 0, Fin 0] (Fin 1) (Fin 1)))
     = 5" by simp
  from o f n 1 2 show ?thesis by blast
qed

end
